theory Spec2Isabelle
  imports Complex_Main "HOL-Library.AList" "HOL-Library.FSet" "HOL-Library.Product_Lexorder"
begin

section \<open>The associative memory store of memory_system.py\<close>

text \<open>
  A shallow embedding of \<^verbatim>\<open>MemoryTrace\<close>, \<^verbatim>\<open>MemoryQuery\<close> and \<^verbatim>\<open>MemoryNetwork\<close>.
  Python floats are read as real numbers, Python exceptions are values of the type
  \<open>error\<close>, and every method of \<^verbatim>\<open>MemoryNetwork\<close> takes the network and returns the
  network it leaves behind, also when it raises: a method that fails half way returns the
  half-updated network next to the error.
\<close>

datatype error = ValueError string | TypeError string | KeyError | ZeroDivisionError

subsection \<open>datetime\<close>

text \<open>
  A naive \<^verbatim>\<open>datetime\<close>: its seven fields. The functions below are the ones of the standard
  library that the store calls: comparison, \<^verbatim>\<open>replace(hour=...)\<close>, \<^verbatim>\<open>strftime("%Y%m%d%H")\<close>
  and the difference of two values in seconds.
\<close>

record datetime =
  year :: nat
  month :: nat
  day :: nat
  hour :: nat
  minute :: nat
  second :: nat
  microsecond :: nat

definition is_leap :: "nat \<Rightarrow> bool" where
  "is_leap y = (y mod 4 = 0 \<and> (y mod 100 \<noteq> 0 \<or> y mod 400 = 0))"

definition days_before_year :: "nat \<Rightarrow> int" where
  "days_before_year y =
     (let p = int y - 1 in p * 365 + p div 4 - p div 100 + p div 400)"

definition days_before_month :: "nat \<Rightarrow> nat \<Rightarrow> int" where
  "days_before_month y m =
     [0, 31, 59, 90, 120, 151, 181, 212, 243, 273, 304, 334] ! (m - 1)
       + (if m > 2 \<and> is_leap y then 1 else 0)"

definition toordinal :: "datetime \<Rightarrow> int" where
  "toordinal d = days_before_year (year d) + days_before_month (year d) (month d) + int (day d)"

definition to_microseconds :: "datetime \<Rightarrow> int" where
  "to_microseconds d =
     ((toordinal d * 86400 + int (hour d) * 3600 + int (minute d) * 60 + int (second d)) * 1000000
        + int (microsecond d))"

text \<open>\<^verbatim>\<open>(a - b).total_seconds()\<close>\<close>

definition total_seconds :: "datetime \<Rightarrow> datetime \<Rightarrow> real" where
  "total_seconds a b = real_of_int (to_microseconds a - to_microseconds b) / 1000000"

text \<open>\<^verbatim>\<open>a <= b\<close>: the field tuples, compared lexicographically.\<close>

definition datetime_le :: "datetime \<Rightarrow> datetime \<Rightarrow> bool" where
  "datetime_le a b =
     ((year a, month a, day a, hour a, minute a, second a, microsecond a)
        \<le> (year b, month b, day b, hour b, minute b, second b, microsecond b))"

text \<open>\<^verbatim>\<open>d.replace(hour=h)\<close> checks the new field and raises ValueError outside 0..23.\<close>

definition replace_hour :: "datetime \<Rightarrow> nat \<Rightarrow> error + datetime" where
  "replace_hour d h =
     (if h \<le> 23 then Inr (d\<lparr>hour := h\<rparr>) else Inl (ValueError ''hour must be in 0..23''))"

fun str_nat :: "nat \<Rightarrow> string" where
  "str_nat n =
     (if n < 10 then [''0123456789'' ! n]
      else str_nat (n div 10) @ [''0123456789'' ! (n mod 10)])"

declare str_nat.simps [simp del]

definition str_int :: "int \<Rightarrow> string" where
  "str_int i = (if i < 0 then CHR ''-'' # str_nat (nat (- i)) else str_nat (nat i))"

definition zfill :: "nat \<Rightarrow> string \<Rightarrow> string" where
  "zfill w s = replicate (w - length s) CHR ''0'' @ s"

text \<open>
  \<^verbatim>\<open>d.strftime("%Y%m%d%H")\<close>: the key of the hour bucket. The C library prints the year
  as it is, without leading zeros for a year below 1000, and month, day and hour on two
  digits.
\<close>

definition hour_key :: "datetime \<Rightarrow> string" where
  "hour_key d =
     str_nat (year d) @ zfill 2 (str_nat (month d)) @ zfill 2 (str_nat (day d))
       @ zfill 2 (str_nat (hour d))"

subsection \<open>MemoryTrace\<close>

text \<open>
  The dictionary \<^verbatim>\<open>context\<close> is the list of its items (the field is called
  \<open>context_dict\<close>, \<open>context\<close> being a keyword), the set \<^verbatim>\<open>tags\<close> a finite set, the
  list \<^verbatim>\<open>associations\<close> a list.
\<close>

record MemoryTrace =
  content :: string
  timestamp :: datetime
  importance :: real
  emotional_valence :: real
  context_dict :: "(string \<times> string) list"
  tags :: "string fset"
  retrieval_count :: int
  last_accessed :: "datetime option"
  associations :: "string list"

text \<open>
  The constructor of the dataclass followed by \<^verbatim>\<open>__post_init__\<close>. The \<^verbatim>\<open>isinstance\<close>
  checks are the types of the arguments here; \<^verbatim>\<open>associations=None\<close> becomes the empty
  list.
\<close>

definition new_MemoryTrace ::
  "string \<Rightarrow> datetime \<Rightarrow> real \<Rightarrow> real \<Rightarrow> (string \<times> string) list \<Rightarrow> string fset \<Rightarrow> int
     \<Rightarrow> datetime option \<Rightarrow> string list option \<Rightarrow> error + MemoryTrace" where
  "new_MemoryTrace c ts imp val ctx tgs rc la assoc =
     (if c = [] then Inl (ValueError ''Content must be a non-empty string'')
      else if \<not> (0 \<le> imp \<and> imp \<le> 1)
        then Inl (ValueError ''Importance must be a float between 0 and 1'')
      else if \<not> (- 1 \<le> val \<and> val \<le> 1)
        then Inl (ValueError ''Emotional valence must be a float between -1 and 1'')
      else if rc < 0 then Inl (ValueError ''Retrieval count cannot be negative'')
      else Inr \<lparr>content = c, timestamp = ts, importance = imp, emotional_valence = val,
                context_dict = ctx, tags = tgs, retrieval_count = rc, last_accessed = la,
                associations = (case assoc of None \<Rightarrow> [] | Some l \<Rightarrow> l)\<rparr>)"

subsection \<open>Association strength\<close>

text \<open>
  \<^verbatim>\<open>_calculate_association_strength\<close>, one definition for each of its four terms. The
  context term divides by the larger of the two context sizes and raises
  ZeroDivisionError when both contexts are empty.
\<close>

definition context_sim :: "MemoryTrace \<Rightarrow> MemoryTrace \<Rightarrow> error + real" where
  "context_sim memory1 memory2 =
     (if max (length (context_dict memory1)) (length (context_dict memory2)) = 0
      then Inl ZeroDivisionError
      else Inr (real (card (set (context_dict memory1) \<inter> set (context_dict memory2)))
                  / real (max (length (context_dict memory1)) (length (context_dict memory2)))))"

definition tag_sim :: "MemoryTrace \<Rightarrow> MemoryTrace \<Rightarrow> real" where
  "tag_sim memory1 memory2 =
     (if tags memory1 \<noteq> {||} \<and> tags memory2 \<noteq> {||}
      then real (fcard (tags memory1 |\<inter>| tags memory2))
             / real (max (fcard (tags memory1)) (fcard (tags memory2)))
      else 0)"

definition temporal_sim :: "MemoryTrace \<Rightarrow> MemoryTrace \<Rightarrow> real" where
  "temporal_sim memory1 memory2 =
     (let time_diff = \<bar>total_seconds (timestamp memory1) (timestamp memory2)\<bar>
      in 1 / (1 + time_diff / 3600))"

definition emotional_sim :: "MemoryTrace \<Rightarrow> MemoryTrace \<Rightarrow> real" where
  "emotional_sim memory1 memory2 =
     1 - \<bar>emotional_valence memory1 - emotional_valence memory2\<bar>"

definition calculate_association_strength :: "MemoryTrace \<Rightarrow> MemoryTrace \<Rightarrow> error + real" where
  "calculate_association_strength memory1 memory2 =
     (case context_sim memory1 memory2 of
        Inl e \<Rightarrow> Inl e
      | Inr c \<Rightarrow>
          Inr (0.3 * c + 0.3 * tag_sim memory1 memory2 + 0.2 * temporal_sim memory1 memory2
                 + 0.2 * emotional_sim memory1 memory2))"

subsection \<open>The eviction score\<close>

text \<open>
  The body of the scoring loop of \<^verbatim>\<open>_manage_capacity\<close>; \<open>now\<close> is the reading of
  \<^verbatim>\<open>datetime.now()\<close>. A record stamped exactly one second after \<open>now\<close> makes the
  divisor zero.
\<close>

definition memory_score :: "datetime \<Rightarrow> MemoryTrace \<Rightarrow> error + real" where
  "memory_score now memory =
     (if 1 + total_seconds now (timestamp memory) = 0 then Inl ZeroDivisionError
      else
        (let time_factor = 1 / (1 + total_seconds now (timestamp memory))
         in Inr (importance memory * 0.4 + time_factor * 0.3
                   + (real_of_int (retrieval_count memory) / 10) * 0.3)))"

subsection \<open>MemoryNetwork\<close>

text \<open>
  \<^verbatim>\<open>memories\<close> is a dictionary whose order matters (the eviction sort is stable over it):
  the list of its items in insertion order. The four indices are
  \<^verbatim>\<open>defaultdict(set)\<close>: a function from the key to the bucket, empty where the key was never
  used. \<^verbatim>\<open>association_strength\<close> is a map on ordered pairs of identifiers, since
  \<^verbatim>\<open>del\<close> raises KeyError on a missing pair.

  On the list of items, \<open>AList.update\<close> is the assignment \<^verbatim>\<open>d[k] = v\<close> (the value of a
  key already there is replaced where it stands, a new key goes to the end),
  \<open>AList.delete\<close> is \<^verbatim>\<open>del d[k]\<close> on a key that is there, \<open>AList.map_entry\<close> changes the
  value under a key, and \<open>map_of\<close> is the lookup.
\<close>

record MemoryNetwork =
  memories :: "(string \<times> MemoryTrace) list"
  capacity :: int
  context_index :: "string \<Rightarrow> string set"
  temporal_index :: "string \<Rightarrow> string set"
  emotional_index :: "real \<Rightarrow> string set"
  tag_index :: "string \<Rightarrow> string set"
  importance_threshold :: real
  association_strength :: "string \<times> string \<Rightarrow> real option"

definition new_MemoryNetwork :: "int \<Rightarrow> MemoryNetwork" where
  "new_MemoryNetwork cap =
     \<lparr>memories = [], capacity = cap, context_index = (\<lambda>_. {}), temporal_index = (\<lambda>_. {}),
      emotional_index = (\<lambda>_. {}), tag_index = (\<lambda>_. {}), importance_threshold = 0.3,
      association_strength = Map.empty\<rparr>"

text \<open>\<^verbatim>\<open>index[key].add(memory_id)\<close> and \<^verbatim>\<open>index[key].discard(memory_id)\<close>\<close>

definition bucket_add :: "('k \<Rightarrow> string set) \<Rightarrow> 'k \<Rightarrow> string \<Rightarrow> ('k \<Rightarrow> string set)" where
  "bucket_add index key memory_id = index(key := insert memory_id (index key))"

definition bucket_discard :: "('k \<Rightarrow> string set) \<Rightarrow> 'k \<Rightarrow> string \<Rightarrow> ('k \<Rightarrow> string set)" where
  "bucket_discard index key memory_id = index(key := index key - {memory_id})"

text \<open>The built-in \<^verbatim>\<open>round\<close> of a float: to the nearest integer, a half to the even one.\<close>

definition py_round :: "real \<Rightarrow> int" where
  "py_round x =
     (let f = \<lfloor>x\<rfloor>; d = x - of_int f
      in if d < 1 / 2 then f else if d > 1 / 2 then f + 1 else if even f then f else f + 1)"

definition emotion_key :: "real \<Rightarrow> real" where
  "emotion_key valence = real_of_int (py_round (valence * 10)) / 10"

definition context_key :: "string \<times> string \<Rightarrow> string" where
  "context_key kv = fst kv @ '':'' @ snd kv"

text \<open>
  \<^verbatim>\<open>_update_indices\<close>. The loop over the tag set adds the identifier to the bucket of each
  tag, whatever the order.
\<close>

definition update_indices :: "MemoryNetwork \<Rightarrow> string \<Rightarrow> MemoryTrace \<Rightarrow> MemoryNetwork" where
  "update_indices net memory_id memory =
     net\<lparr>context_index :=
           fold (\<lambda>kv index. bucket_add index (context_key kv) memory_id) (context_dict memory)
             (context_index net),
         temporal_index := bucket_add (temporal_index net) (hour_key (timestamp memory)) memory_id,
         emotional_index :=
           bucket_add (emotional_index net) (emotion_key (emotional_valence memory)) memory_id,
         tag_index :=
           (\<lambda>tag. if tag |\<in>| tags memory then insert memory_id (tag_index net tag)
                  else tag_index net tag)\<rparr>"

text \<open>
  \<^verbatim>\<open>self.memories[k].associations.append(x)\<close>: the records live in the store, so a change
  of a record is a change of its entry.
\<close>

definition append_association ::
  "string \<Rightarrow> string \<Rightarrow> (string \<times> MemoryTrace) list \<Rightarrow> (string \<times> MemoryTrace) list" where
  "append_association k x ms =
     AList.map_entry k (\<lambda>m. m\<lparr>associations := associations m @ [x]\<rparr>) ms"

text \<open>
  \<^verbatim>\<open>_create_associations\<close>: the loop over \<^verbatim>\<open>self.memories.items()\<close>. The strength reads
  no field that the loop changes, so it is computed from the items as they were when the
  loop started.
\<close>

fun create_associations_loop ::
  "string \<Rightarrow> MemoryTrace \<Rightarrow> (string \<times> MemoryTrace) list \<Rightarrow> MemoryNetwork
     \<Rightarrow> (error + unit) \<times> MemoryNetwork" where
  "create_associations_loop memory_id memory [] net = (Inr (), net)"
| "create_associations_loop memory_id memory ((other_id, other_memory) # rest) net =
     (if other_id \<noteq> memory_id then
        (case calculate_association_strength memory other_memory of
           Inl e \<Rightarrow> (Inl e, net)
         | Inr strength \<Rightarrow>
             if strength > 0.3 then
               create_associations_loop memory_id memory rest
                 (net\<lparr>memories :=
                        append_association other_id memory_id
                          (append_association memory_id other_id (memories net)),
                      association_strength :=
                        (association_strength net)
                          ((memory_id, other_id) \<mapsto> strength, (other_id, memory_id) \<mapsto> strength)\<rparr>)
             else create_associations_loop memory_id memory rest net)
      else create_associations_loop memory_id memory rest net)"

definition create_associations ::
  "MemoryNetwork \<Rightarrow> string \<Rightarrow> MemoryTrace \<Rightarrow> (error + unit) \<times> MemoryNetwork" where
  "create_associations net memory_id memory =
     create_associations_loop memory_id memory (memories net) net"

text \<open>
  The loop of \<^verbatim>\<open>_remove_memory\<close> over the associations of the record that goes. Each
  round changes the list of another record, so the list being walked stays as it was; the
  one exception is a record that lists itself, and there the second \<^verbatim>\<open>del\<close> of the round,
  on the same pair as the first, raises KeyError and ends the loop.
  \<^verbatim>\<open>list.remove\<close> takes out the first occurrence and raises ValueError when there is none.
\<close>

fun remove_associations ::
  "string \<Rightarrow> string list \<Rightarrow> MemoryNetwork \<Rightarrow> (error + unit) \<times> MemoryNetwork" where
  "remove_associations memory_id [] net = (Inr (), net)"
| "remove_associations memory_id (associated_id # rest) net =
     (case map_of (memories net) associated_id of
        None \<Rightarrow> remove_associations memory_id rest net
      | Some other \<Rightarrow>
          if memory_id \<notin> set (associations other)
          then (Inl (ValueError ''list.remove(x): x not in list''), net)
          else
            (let net1 = net\<lparr>memories :=
                              AList.map_entry associated_id
                                (\<lambda>m. m\<lparr>associations := remove1 memory_id (associations m)\<rparr>)
                                (memories net)\<rparr>
             in if association_strength net1 (memory_id, associated_id) = None
                then (Inl KeyError, net1)
                else
                  (let net2 = net1\<lparr>association_strength :=
                                     (association_strength net1)((memory_id, associated_id) := None)\<rparr>
                   in if association_strength net2 (associated_id, memory_id) = None
                      then (Inl KeyError, net2)
                      else remove_associations memory_id rest
                             (net2\<lparr>association_strength :=
                                     (association_strength net2)
                                       ((associated_id, memory_id) := None)\<rparr>))))"

text \<open>\<^verbatim>\<open>_remove_memory\<close>\<close>

definition remove_memory :: "MemoryNetwork \<Rightarrow> string \<Rightarrow> (error + unit) \<times> MemoryNetwork" where
  "remove_memory net memory_id =
     (case map_of (memories net) memory_id of
        None \<Rightarrow> (Inl KeyError, net)
      | Some memory \<Rightarrow>
          (let net1 =
                 net\<lparr>context_index :=
                       fold (\<lambda>kv index. bucket_discard index (context_key kv) memory_id)
                         (context_dict memory) (context_index net),
                     temporal_index :=
                       bucket_discard (temporal_index net) (hour_key (timestamp memory)) memory_id,
                     emotional_index :=
                       bucket_discard (emotional_index net)
                         (emotion_key (emotional_valence memory)) memory_id,
                     tag_index :=
                       (\<lambda>tag. if tag |\<in>| tags memory then tag_index net tag - {memory_id}
                              else tag_index net tag)\<rparr>
           in case remove_associations memory_id (associations memory) net1 of
                (Inl e, net2) \<Rightarrow> (Inl e, net2)
              | (Inr u, net2) \<Rightarrow>
                  (Inr (), net2\<lparr>memories := AList.delete memory_id (memories net2)\<rparr>)))"

fun remove_memories :: "string list \<Rightarrow> MemoryNetwork \<Rightarrow> (error + unit) \<times> MemoryNetwork" where
  "remove_memories [] net = (Inr (), net)"
| "remove_memories (memory_id # rest) net =
     (case remove_memory net memory_id of
        (Inl e, net') \<Rightarrow> (Inl e, net')
      | (Inr u, net') \<Rightarrow> remove_memories rest net')"

text \<open>
  The scoring loop of \<^verbatim>\<open>_manage_capacity\<close>: \<open>clock i\<close> is what \<^verbatim>\<open>datetime.now()\<close> returns
  in round \<open>i\<close>. The result is the list of the items of \<^verbatim>\<open>memory_scores\<close>.
\<close>

fun memory_scores ::
  "(nat \<Rightarrow> datetime) \<Rightarrow> nat \<Rightarrow> (string \<times> MemoryTrace) list \<Rightarrow> error + (string \<times> real) list" where
  "memory_scores clock i [] = Inr []"
| "memory_scores clock i ((memory_id, memory) # rest) =
     (case memory_score (clock i) memory of
        Inl e \<Rightarrow> Inl e
      | Inr score \<Rightarrow>
          (case memory_scores clock (Suc i) rest of
             Inl e \<Rightarrow> Inl e
           | Inr scores \<Rightarrow> Inr ((memory_id, score) # scores)))"

text \<open>
  \<^verbatim>\<open>_manage_capacity\<close>: \<^verbatim>\<open>sorted\<close> is stable, the slice takes the first
  \<^verbatim>\<open>len(self.memories) - self.capacity\<close> items, a positive number in this branch.
\<close>

definition manage_capacity ::
  "(nat \<Rightarrow> datetime) \<Rightarrow> MemoryNetwork \<Rightarrow> (error + unit) \<times> MemoryNetwork" where
  "manage_capacity clock net =
     (if int (length (memories net)) > capacity net then
        (case memory_scores clock 0 (memories net) of
           Inl e \<Rightarrow> (Inl e, net)
         | Inr scores \<Rightarrow>
             (let memories_to_remove =
                    take (nat (int (length (memories net)) - capacity net)) (sort_key snd scores)
              in remove_memories (map fst memories_to_remove) net))
      else (Inr (), net))"

text \<open>
  \<^verbatim>\<open>store_memory\<close>; \<open>py_hash\<close> is the built-in \<^verbatim>\<open>hash\<close> on strings and \<open>generate_id\<close>
  the f-string of the identifier. Assigning to
  \<^verbatim>\<open>self.memories[memory_id]\<close> replaces the record of an identifier already in use and
  keeps its place.
\<close>

definition generate_id :: "(string \<Rightarrow> int) \<Rightarrow> MemoryNetwork \<Rightarrow> MemoryTrace \<Rightarrow> string" where
  "generate_id py_hash net memory =
     ''mem_'' @ str_nat (length (memories net)) @ ''_'' @ str_int (py_hash (content memory))"

definition store_memory ::
  "(string \<Rightarrow> int) \<Rightarrow> (nat \<Rightarrow> datetime) \<Rightarrow> MemoryNetwork \<Rightarrow> MemoryTrace
     \<Rightarrow> (error + string) \<times> MemoryNetwork" where
  "store_memory py_hash clock net memory =
     (let memory_id = generate_id py_hash net memory;
          net1 = net\<lparr>memories := AList.update memory_id memory (memories net)\<rparr>;
          net2 = update_indices net1 memory_id memory
      in case create_associations net2 memory_id memory of
           (Inl e, net3) \<Rightarrow> (Inl e, net3)
         | (Inr u, net3) \<Rightarrow>
             (case manage_capacity clock net3 of
                (Inl e, net4) \<Rightarrow> (Inl e, net4)
              | (Inr u', net4) \<Rightarrow> (Inr memory_id, net4)))"

text \<open>
  What every caller of the store does (\<^verbatim>\<open>EnhancedAgent.process_interaction\<close>, the tests):
  build the record, then store it. \<^verbatim>\<open>store_memory\<close> checks no field itself; a record
  that fails \<^verbatim>\<open>__post_init__\<close> never reaches it.
\<close>

definition build_and_store ::
  "(string \<Rightarrow> int) \<Rightarrow> (nat \<Rightarrow> datetime) \<Rightarrow> MemoryNetwork
     \<Rightarrow> string \<Rightarrow> datetime \<Rightarrow> real \<Rightarrow> real \<Rightarrow> (string \<times> string) list \<Rightarrow> string fset
     \<Rightarrow> (error + string) \<times> MemoryNetwork" where
  "build_and_store py_hash clock net c ts imp val ctx tgs =
     (case new_MemoryTrace c ts imp val ctx tgs 0 None None of
        Inl e \<Rightarrow> (Inl e, net)
      | Inr memory \<Rightarrow> store_memory py_hash clock net memory)"

subsection \<open>Example records\<close>

definition noon :: datetime where
  "noon = \<lparr>year = 2024, month = 1, day = 1, hour = 12, minute = 0, second = 0, microsecond = 0\<rparr>"

definition glad :: MemoryTrace where
  "glad = \<lparr>content = ''glad'', timestamp = noon, importance = 1, emotional_valence = 1,
            context_dict = [(''location'', ''office'')], tags = {|''work''|},
            retrieval_count = 20, last_accessed = None, associations = []\<rparr>"

definition grim :: MemoryTrace where
  "grim = \<lparr>content = ''grim'', timestamp = noon, importance = 0, emotional_valence = - 1,
            context_dict = [(''location'', ''home'')], tags = {|''rest''|},
            retrieval_count = 0, last_accessed = None, associations = []\<rparr>"

subsection \<open>MemoryQuery and retrieve_memories\<close>

record MemoryQuery =
  q_content :: "string option"
  q_context :: "(string \<times> string) list option"
  q_time_range :: "(datetime \<times> datetime) option"
  q_tags :: "string fset option"
  q_emotional_range :: "(real \<times> real) option"
  q_importance_threshold :: "real option"

text \<open>
  \<^verbatim>\<open>str.lower\<close> and \<^verbatim>\<open>s in t\<close> on strings. A character here is a byte, and \<open>lower\<close>
  lowers the letters A to Z only: on a content with letters outside ASCII it is not what
  \<^verbatim>\<open>str.lower\<close> returns. No result below depends on which strings the content filter
  matches.
\<close>

definition lower_char :: "char \<Rightarrow> char" where
  "lower_char c =
     (let n = (of_char c :: nat) in if 65 \<le> n \<and> n \<le> 90 then char_of (n + 32) else c)"

definition lower :: "string \<Rightarrow> string" where
  "lower s = map lower_char s"

fun is_substring :: "string \<Rightarrow> string \<Rightarrow> bool" where
  "is_substring s [] = (s = [])"
| "is_substring s (c # t) = (take (length s) (c # t) = s \<or> is_substring s t)"

definition content_matches :: "MemoryNetwork \<Rightarrow> string \<Rightarrow> string set" where
  "content_matches net c =
     set (map fst (filter (\<lambda>(memory_id, memory). is_substring (lower c) (lower (content memory)))
                     (memories net)))"

definition context_matches :: "MemoryNetwork \<Rightarrow> (string \<times> string) list \<Rightarrow> string set" where
  "context_matches net ctx =
     fold (\<lambda>kv matches. matches \<union> context_index net (context_key kv)) ctx {}"

text \<open>
  The loop over the hours of \<^verbatim>\<open>time_range\<close>. The next hour is made by
  \<^verbatim>\<open>current_time.replace(hour=current_time.hour + 1)\<close>, which raises at hour 23; the hour
  grows in every round, so the loop ends.
\<close>

function temporal_matches ::
  "(string \<Rightarrow> string set) \<Rightarrow> datetime \<Rightarrow> datetime \<Rightarrow> string set \<Rightarrow> error + string set" where
  "temporal_matches index current_time end_time matches =
     (if datetime_le current_time end_time then
        (case replace_hour current_time (hour current_time + 1) of
           Inl e \<Rightarrow> Inl e
         | Inr next_time \<Rightarrow>
             temporal_matches index next_time end_time
               (matches \<union> index (hour_key current_time)))
      else Inr matches)"
  by pat_completeness auto
termination
  by (relation "measure (\<lambda>(index, current_time, end_time, matches). 24 - hour current_time)")
     (auto simp: replace_hour_def split: if_splits)

declare temporal_matches.simps [simp del]

definition tag_matches :: "MemoryNetwork \<Rightarrow> string fset \<Rightarrow> string set" where
  "tag_matches net tgs = (\<Union>tag \<in> fset tgs. tag_index net tag)"

text \<open>
  \<^verbatim>\<open>np.arange(start, stop, step)\<close>: the values start + i * step for i below the ceiling
  of (stop - start) / step. This is the count over the real numbers; in floating point
  the quotient can come out just above an integer (0.2 + 0.1 is above 0.3), and then
  \<^verbatim>\<open>np.arange\<close> yields one value more, so the code can read one bucket beyond those of
  \<open>emotional_matches\<close>. No result below depends on which buckets the valence filter reads.
\<close>

definition arange :: "real \<Rightarrow> real \<Rightarrow> real \<Rightarrow> real list" where
  "arange start stop step =
     map (\<lambda>i. start + real i * step) [0 ..< nat \<lceil>(stop - start) / step\<rceil>]"

definition emotional_matches :: "MemoryNetwork \<Rightarrow> real \<times> real \<Rightarrow> string set" where
  "emotional_matches net rng =
     fold (\<lambda>val matches. matches \<union> emotional_index net (emotion_key val))
       (arange (fst rng) (snd rng + 0.1) 0.1) {}"

definition importance_matches :: "MemoryNetwork \<Rightarrow> real \<Rightarrow> string set" where
  "importance_matches net threshold =
     set (map fst (filter (\<lambda>(memory_id, memory). importance memory \<ge> threshold) (memories net)))"

text \<open>
  The filters of \<^verbatim>\<open>retrieve_memories\<close>, in the order of the source. A filter whose field
  is None or empty is skipped, as the truth test of the source does.
\<close>

definition candidate_memories :: "MemoryNetwork \<Rightarrow> MemoryQuery \<Rightarrow> error + string set" where
  "candidate_memories net query =
     (let c0 = set (map fst (memories net));
          c1 = (case q_content query of
                  None \<Rightarrow> c0
                | Some c \<Rightarrow> if c \<noteq> [] then c0 \<inter> content_matches net c else c0);
          c2 = (case q_context query of
                  None \<Rightarrow> c1
                | Some ctx \<Rightarrow> if ctx \<noteq> [] then c1 \<inter> context_matches net ctx else c1)
      in case (case q_time_range query of
                 None \<Rightarrow> Inr c2
               | Some (start_time, end_time) \<Rightarrow>
                   (case temporal_matches (temporal_index net) start_time end_time {} of
                      Inl e \<Rightarrow> Inl e
                    | Inr t \<Rightarrow> Inr (c2 \<inter> t))) of
           Inl e \<Rightarrow> Inl e
         | Inr c3 \<Rightarrow>
             (let c4 = (case q_tags query of
                          None \<Rightarrow> c3
                        | Some tgs \<Rightarrow> if tgs \<noteq> {||} then c3 \<inter> tag_matches net tgs else c3);
                  c5 = (case q_emotional_range query of
                          None \<Rightarrow> c4
                        | Some rng \<Rightarrow> c4 \<inter> emotional_matches net rng);
                  c6 = (case q_importance_threshold query of
                          None \<Rightarrow> c5
                        | Some threshold \<Rightarrow> c5 \<inter> importance_matches net threshold)
              in Inr c6))"

text \<open>\<^verbatim>\<open>[(memory_id, self.memories[memory_id]) for memory_id in candidate_memories]\<close>\<close>

fun lookup_all ::
  "(string \<times> MemoryTrace) list \<Rightarrow> string list \<Rightarrow> error + (string \<times> MemoryTrace) list" where
  "lookup_all ms [] = Inr []"
| "lookup_all ms (memory_id # rest) =
     (case map_of ms memory_id of
        None \<Rightarrow> Inl KeyError
      | Some memory \<Rightarrow>
          (case lookup_all ms rest of
             Inl e \<Rightarrow> Inl e
           | Inr results \<Rightarrow> Inr ((memory_id, memory) # results)))"

definition touch :: "datetime \<Rightarrow> MemoryTrace \<Rightarrow> MemoryTrace" where
  "touch now memory =
     memory\<lparr>retrieval_count := retrieval_count memory + 1, last_accessed := Some now\<rparr>"

text \<open>
  The last loop of \<^verbatim>\<open>retrieve_memories\<close>. The result list holds the records of the
  store themselves, so the caller sees the raised counts: the loop returns the touched
  list next to the touched store.
\<close>

fun update_retrieval ::
  "(nat \<Rightarrow> datetime) \<Rightarrow> nat \<Rightarrow> (string \<times> MemoryTrace) list \<Rightarrow> MemoryNetwork
     \<Rightarrow> (string \<times> MemoryTrace) list \<times> MemoryNetwork" where
  "update_retrieval clock i [] net = ([], net)"
| "update_retrieval clock i ((memory_id, memory) # rest) net =
     (case update_retrieval clock (Suc i) rest
             (net\<lparr>memories := AList.map_entry memory_id (touch (clock i)) (memories net)\<rparr>) of
        (rest', net') \<Rightarrow> ((memory_id, touch (clock i) memory) # rest', net'))"

definition sort_key_of :: "string \<times> MemoryTrace \<Rightarrow> real \<times> int" where
  "sort_key_of x = (- importance (snd x), - retrieval_count (snd x))"

text \<open>
  \<^verbatim>\<open>retrieve_memories\<close>. The order in which Python walks a set is not given by its
  elements; \<open>set_iter\<close> is that order, a parameter. \<^verbatim>\<open>list.sort\<close> is stable and compares
  the key tuples lexicographically.
\<close>

definition retrieve_memories ::
  "(string set \<Rightarrow> string list) \<Rightarrow> (nat \<Rightarrow> datetime) \<Rightarrow> MemoryNetwork \<Rightarrow> MemoryQuery
     \<Rightarrow> (error + (string \<times> MemoryTrace) list) \<times> MemoryNetwork" where
  "retrieve_memories set_iter clock net query =
     (case candidate_memories net query of
        Inl e \<Rightarrow> (Inl e, net)
      | Inr candidates \<Rightarrow>
          (case lookup_all (memories net) (set_iter candidates) of
             Inl e \<Rightarrow> (Inl e, net)
           | Inr results \<Rightarrow>
               (case update_retrieval clock 0 (sort_key sort_key_of results) net of
                  (results', net') \<Rightarrow> (Inr results', net'))))"

text \<open>The query without any filter, and a set order that follows a given list.\<close>

definition any_query :: MemoryQuery where
  "any_query = \<lparr>q_content = None, q_context = None, q_time_range = None, q_tags = None,
                 q_emotional_range = None, q_importance_threshold = None\<rparr>"

definition iter_in_order :: "string list \<Rightarrow> string set \<Rightarrow> string list" where
  "iter_in_order order S = filter (\<lambda>x. x \<in> S) order"

subsection \<open>Reading a network\<close>

text \<open>\<^verbatim>\<open>memory_id in self.memories\<close> and \<^verbatim>\<open>self.memories[memory_id].associations\<close>\<close>

definition stored :: "MemoryNetwork \<Rightarrow> string \<Rightarrow> bool" where
  "stored net memory_id = (map_of (memories net) memory_id \<noteq> None)"

definition associations_of :: "MemoryNetwork \<Rightarrow> string \<Rightarrow> string list" where
  "associations_of net memory_id =
     (case map_of (memories net) memory_id of None \<Rightarrow> [] | Some memory \<Rightarrow> associations memory)"

subsection \<open>A run of five stores on a network of capacity 2\<close>

text \<open>
  Five records as the constructor makes them, all stamped \<open>noon\<close>, stored with the clock
  at \<open>noon\<close>; the hash of a content is taken to be its length. \<open>attic\<close> is the least
  important of the first three and is evicted by the third store. \<open>desk2\<close> equals
  \<open>desk1\<close> but for its content and is associated with it. \<open>shed\<close> has the content of
  \<open>desk2\<close> and is stored while the network again holds two records, so it is given the
  identifier that \<open>desk2\<close> has. \<open>roof\<close> is important, and its store evicts \<open>shed\<close>.
\<close>

definition len_hash :: "string \<Rightarrow> int" where
  "len_hash s = int (length s)"

definition attic :: MemoryTrace where
  "attic = \<lparr>content = ''a'', timestamp = noon, importance = 0, emotional_valence = - 1,
             context_dict = [(''place'', ''attic'')], tags = {|''old''|},
             retrieval_count = 0, last_accessed = None, associations = []\<rparr>"

definition desk1 :: MemoryTrace where
  "desk1 = \<lparr>content = ''bb'', timestamp = noon, importance = 1, emotional_valence = 1,
             context_dict = [(''place'', ''desk'')], tags = {|''work''|},
             retrieval_count = 0, last_accessed = None, associations = []\<rparr>"

definition desk2 :: MemoryTrace where
  "desk2 = \<lparr>content = ''ccc'', timestamp = noon, importance = 1, emotional_valence = 1,
             context_dict = [(''place'', ''desk'')], tags = {|''work''|},
             retrieval_count = 0, last_accessed = None, associations = []\<rparr>"

definition shed :: MemoryTrace where
  "shed = \<lparr>content = ''ccc'', timestamp = noon, importance = 0, emotional_valence = - 1,
            context_dict = [(''place'', ''shed'')], tags = {|''tools''|},
            retrieval_count = 0, last_accessed = None, associations = []\<rparr>"

definition roof :: MemoryTrace where
  "roof = \<lparr>content = ''dddd'', timestamp = noon, importance = 1, emotional_valence = 0,
            context_dict = [(''place'', ''roof'')], tags = {|''sky''|},
            retrieval_count = 0, last_accessed = None, associations = []\<rparr>"

definition noon_clock :: "nat \<Rightarrow> datetime" where
  "noon_clock i = noon"

definition store_at_noon :: "MemoryNetwork \<Rightarrow> MemoryTrace \<Rightarrow> (error + string) \<times> MemoryNetwork" where
  "store_at_noon net memory = store_memory len_hash noon_clock net memory"

definition net1 :: MemoryNetwork where
  "net1 = snd (store_at_noon (new_MemoryNetwork 2) attic)"

definition net2 :: MemoryNetwork where
  "net2 = snd (store_at_noon net1 desk1)"

definition net3 :: MemoryNetwork where
  "net3 = snd (store_at_noon net2 desk2)"

definition net4 :: MemoryNetwork where
  "net4 = snd (store_at_noon net3 shed)"

definition net5 :: MemoryNetwork where
  "net5 = snd (store_at_noon net4 roof)"

text \<open>
  The same run with the importances of two records changed: \<open>desk_dim\<close> is \<open>desk1\<close>
  with importance 1/2 and \<open>shed_dear\<close> is \<open>shed\<close> with importance 1, so that the fifth
  store picks the record that lists the identifier given twice.
\<close>

definition desk_dim :: MemoryTrace where
  "desk_dim = desk1\<lparr>importance := 1 / 2\<rparr>"

definition shed_dear :: MemoryTrace where
  "shed_dear = shed\<lparr>importance := 1\<rparr>"

definition dim2 :: MemoryNetwork where
  "dim2 = snd (store_at_noon net1 desk_dim)"

definition dim3 :: MemoryNetwork where
  "dim3 = snd (store_at_noon dim2 desk2)"

definition dim4 :: MemoryNetwork where
  "dim4 = snd (store_at_noon dim3 shed_dear)"

definition dim5 :: MemoryNetwork where
  "dim5 = snd (store_at_noon dim4 roof)"

subsection \<open>Queries on the run\<close>

text \<open>
  A time range from 23:00 to 01:00 of the next day, and the query without a filter asked
  after the third store, when \<open>desk1\<close> and \<open>desk2\<close> tie on importance and on retrieval
  count: \<open>seen_results\<close> is what it returns when the set of candidates is walked in the
  order of the identifiers, \<open>net3_seen\<close> the network it leaves.
\<close>

definition late :: datetime where
  "late = \<lparr>year = 2024, month = 1, day = 1, hour = 23, minute = 0, second = 0, microsecond = 0\<rparr>"

definition early :: datetime where
  "early = \<lparr>year = 2024, month = 1, day = 2, hour = 1, minute = 0, second = 0, microsecond = 0\<rparr>"

definition overnight_query :: MemoryQuery where
  "overnight_query = any_query\<lparr>q_time_range := Some (late, early)\<rparr>"

definition seen_results :: "(string \<times> MemoryTrace) list" where
  "seen_results =
     [(''mem_1_2'', desk1\<lparr>retrieval_count := 1, last_accessed := Some noon,
                           associations := [''mem_2_3'']\<rparr>),
      (''mem_2_3'', desk2\<lparr>retrieval_count := 1, last_accessed := Some noon,
                           associations := [''mem_1_2'']\<rparr>)]"

definition retrieve_at_noon ::
  "string list \<Rightarrow> MemoryNetwork \<Rightarrow> MemoryQuery
     \<Rightarrow> (error + (string \<times> MemoryTrace) list) \<times> MemoryNetwork" where
  "retrieve_at_noon order net query = retrieve_memories (iter_in_order order) noon_clock net query"

definition net3_seen :: MemoryNetwork where
  "net3_seen = snd (retrieve_at_noon [''mem_1_2'', ''mem_2_3''] net3 any_query)"

subsection \<open>What a query ranks by and what its filters read\<close>

definition rank_of :: "string \<times> MemoryTrace \<Rightarrow> string \<times> real \<times> int" where
  "rank_of x = (fst x, importance (snd x), retrieval_count (snd x))"

definition filter_view :: "string \<times> MemoryTrace \<Rightarrow> string \<times> string \<times> real" where
  "filter_view x = (fst x, content (snd x), importance (snd x))"

definition same_filters :: "MemoryNetwork \<Rightarrow> MemoryNetwork \<Rightarrow> bool" where
  "same_filters net net' =
     (map filter_view (memories net') = map filter_view (memories net)
      \<and> context_index net' = context_index net \<and> temporal_index net' = temporal_index net
      \<and> emotional_index net' = emotional_index net \<and> tag_index net' = tag_index net)"

section \<open>Association scoring\<close>

text \<open>
  C1 (counterexample). For the valences 1 and -1 the emotional similarity of the code is -1,
  where the formula with the halved distance gives 0; the value is outside [0,1].
\<close>

theorem emotional_sim_not_halved:
  "emotional_sim glad grim = - 1
   \<and> emotional_sim glad grim \<noteq> 1 - \<bar>emotional_valence glad - emotional_valence grim\<bar> / 2
   \<and> \<not> (0 \<le> emotional_sim glad grim)"
  by (simp add: emotional_sim_def glad_def grim_def)

text \<open>
  C1 (amended). The emotional similarity used in association scoring is one minus the
  distance of the two valences, not halved: it is the term weighted 0.2 in the strength,
  and for valences in [-1,1] it lies in [-1,1].
\<close>

theorem emotional_sim_range:
  assumes "- 1 \<le> emotional_valence r" "emotional_valence r \<le> 1"
    and "- 1 \<le> emotional_valence o'" "emotional_valence o' \<le> 1"
  shows "emotional_sim r o' = 1 - \<bar>emotional_valence r - emotional_valence o'\<bar>
         \<and> - 1 \<le> emotional_sim r o' \<and> emotional_sim r o' \<le> 1
         \<and> (\<forall>s c. calculate_association_strength r o' = Inr s \<and> context_sim r o' = Inr c
               \<longrightarrow> s = 0.3 * c + 0.3 * tag_sim r o' + 0.2 * temporal_sim r o'
                     + 0.2 * (1 - \<bar>emotional_valence r - emotional_valence o'\<bar>))"
  using assms
  by (auto simp: emotional_sim_def calculate_association_strength_def split: sum.splits)

theorem emotional_sim_range_witness:
  "emotional_sim glad grim = 1 - \<bar>emotional_valence glad - emotional_valence grim\<bar>
   \<and> - 1 \<le> emotional_sim glad grim \<and> emotional_sim glad grim \<le> 1
   \<and> calculate_association_strength glad grim = Inr 0"
proof -
  have v: "- 1 \<le> emotional_valence glad" "emotional_valence glad \<le> 1"
    "- 1 \<le> emotional_valence grim" "emotional_valence grim \<le> 1"
    by (simp_all add: glad_def grim_def)
  have s: "calculate_association_strength glad grim = Inr 0"
    by (simp add: calculate_association_strength_def context_sim_def tag_sim_def
        temporal_sim_def emotional_sim_def total_seconds_def glad_def grim_def)
  from emotional_sim_range [OF v] s show ?thesis by simp
qed

section \<open>Eviction score\<close>

text \<open>
  C2 (counterexample). A record retrieved 20 times, scored at its own timestamp: the code
  gives 0.4 + 0.3 + 0.6, the capped formula 0.4 + 0.3 + 0.3, and the retrieval term is
  0.6.
\<close>

theorem memory_score_not_capped:
  "memory_score noon glad = Inr (13 / 10)
   \<and> 13 / 10 \<noteq> 0.4 * importance glad + 0.3 * (1 / (1 + total_seconds noon (timestamp glad)))
                 + 0.3 * (real_of_int (min (retrieval_count glad) 10) / 10)
   \<and> (real_of_int (retrieval_count glad) / 10) * 0.3 > (0.3 :: real)"
  by (simp add: memory_score_def glad_def total_seconds_def)

text \<open>
  C2 (amended). Whenever the divisor is not zero, the eviction score is
  0.4 * importance + 0.3 * recency_factor + 0.3 * retrieval_count / 10 with
  recency_factor = 1 / (1 + seconds_since_creation); the retrieval count is not capped, so
  its term is at most 0.3 exactly for the records retrieved at most 10 times.
\<close>

theorem memory_score_formula:
  assumes "1 + total_seconds now (timestamp m) \<noteq> 0"
  shows "memory_score now m =
           Inr (0.4 * importance m + 0.3 * (1 / (1 + total_seconds now (timestamp m)))
                  + 0.3 * (real_of_int (retrieval_count m) / 10))
         \<and> (0.3 * (real_of_int (retrieval_count m) / 10) \<le> 0.3 \<longleftrightarrow> retrieval_count m \<le> 10)"
proof -
  have "memory_score now m =
          Inr (importance m * 0.4 + (1 / (1 + total_seconds now (timestamp m))) * 0.3
                 + (real_of_int (retrieval_count m) / 10) * 0.3)"
    using assms by (simp add: memory_score_def Let_def)
  moreover have "importance m * 0.4 = 0.4 * importance m" by simp
  moreover have "(1 / (1 + total_seconds now (timestamp m))) * 0.3
                   = 0.3 * (1 / (1 + total_seconds now (timestamp m)))" by simp
  moreover have "(real_of_int (retrieval_count m) / 10) * 0.3
                   = 0.3 * (real_of_int (retrieval_count m) / 10)" by simp
  moreover have "(0.3 * (real_of_int (retrieval_count m) / 10) \<le> (0.3::real))
                   \<longleftrightarrow> retrieval_count m \<le> 10" by simp
  ultimately show ?thesis by metis
qed

theorem memory_score_formula_witness:
  "1 + total_seconds noon (timestamp grim) \<noteq> 0
   \<and> memory_score noon grim = Inr (3 / 10)
   \<and> retrieval_count grim \<le> 10"
proof -
  have h: "1 + total_seconds noon (timestamp grim) \<noteq> 0"
    by (simp add: total_seconds_def grim_def)
  from memory_score_formula [OF h] h show ?thesis
    by (simp add: grim_def total_seconds_def)
qed

section \<open>Capacity\<close>

lemma map_fst_map_entry: "map fst (AList.map_entry k f ms) = map fst ms"
  by (induction ms) auto

lemma remove_associations_keys:
  "remove_associations memory_id as net = (r, net') \<Longrightarrow>
     map fst (memories net') = map fst (memories net) \<and> capacity net' = capacity net"
proof (induction as arbitrary: net)
  case Nil
  then show ?case by simp
next
  case (Cons a as)
  show ?case
  proof (cases "map_of (memories net) a")
    case None
    with Cons show ?thesis by simp
  next
    case (Some other)
    let ?net1 = "net\<lparr>memories := AList.map_entry a
                    (\<lambda>m. m\<lparr>associations := remove1 memory_id (associations m)\<rparr>) (memories net)\<rparr>"
    let ?net2 = "?net1\<lparr>association_strength :=
                    (association_strength ?net1)((memory_id, a) := None)\<rparr>"
    let ?net3 = "?net2\<lparr>association_strength :=
                    (association_strength ?net2)((a, memory_id) := None)\<rparr>"
    have k: "map fst (memories ?net3) = map fst (memories net)" "capacity ?net3 = capacity net"
      by (simp_all add: map_fst_map_entry)
    consider (a) "net' = net" | (b) "net' = ?net1" | (c) "net' = ?net2"
      | (d) "remove_associations memory_id as ?net3 = (r, net')"
      using Cons.prems Some by (simp add: Let_def split: if_splits)
    then show ?thesis
    proof cases
      case d
      from Cons.IH [OF d] k show ?thesis by simp
    qed (simp_all add: map_fst_map_entry)
  qed
qed


lemma length_delete_less:
  "k \<in> fst ` set ms \<Longrightarrow> length (AList.delete k ms) < length ms"
proof (induction ms)
  case Nil
  then show ?case by simp
next
  case (Cons p ms)
  obtain k' v where p: "p = (k', v)" by (cases p)
  have le: "length (AList.delete k ms) \<le> length ms"
    by (simp add: AList.delete_eq)
  show ?case
  proof (cases "k' = k")
    case True
    with le p show ?thesis by simp
  next
    case False
    with Cons p have "length (AList.delete k ms) < length ms" by auto
    with False p show ?thesis by simp
  qed
qed

lemma remove_memory_shrinks:
  assumes "remove_memory net memory_id = (Inr u, net')"
  shows "length (memories net') < length (memories net) \<and> capacity net' = capacity net"
proof -
  from assms obtain memory where m: "map_of (memories net) memory_id = Some memory"
    by (cases "map_of (memories net) memory_id") (simp_all add: remove_memory_def)
  then have k: "memory_id \<in> fst ` set (memories net)"
    by (metis map_of_eq_None_iff option.distinct(1))
  define net1 where "net1 =
    net\<lparr>context_index :=
           fold (\<lambda>kv index. bucket_discard index (context_key kv) memory_id)
             (context_dict memory) (context_index net),
        temporal_index :=
           bucket_discard (temporal_index net) (hour_key (timestamp memory)) memory_id,
        emotional_index :=
           bucket_discard (emotional_index net) (emotion_key (emotional_valence memory)) memory_id,
        tag_index :=
           (\<lambda>tag. if tag |\<in>| tags memory then tag_index net tag - {memory_id}
                  else tag_index net tag)\<rparr>"
  obtain r net2 where ra: "remove_associations memory_id (associations memory) net1 = (r, net2)"
    by (cases "remove_associations memory_id (associations memory) net1")
  from assms m ra have res: "net' = net2\<lparr>memories := AList.delete memory_id (memories net2)\<rparr>"
    by (cases r) (simp_all add: remove_memory_def Let_def net1_def)
  from remove_associations_keys [OF ra]
  have keys: "map fst (memories net2) = map fst (memories net)" "capacity net2 = capacity net"
    by (simp_all add: net1_def)
  from keys(1) k have "memory_id \<in> fst ` set (memories net2)"
    by (metis list.set_map)
  then have "length (AList.delete memory_id (memories net2)) < length (memories net2)"
    by (rule length_delete_less)
  moreover have "length (memories net2) = length (memories net)"
    using keys(1) by (metis length_map)
  ultimately show ?thesis using res keys(2) by simp
qed

lemma remove_memories_shrinks:
  "remove_memories ids net = (Inr u, net') \<Longrightarrow>
     length (memories net') + length ids \<le> length (memories net) \<and> capacity net' = capacity net"
proof (induction ids arbitrary: net)
  case Nil
  then show ?case by simp
next
  case (Cons a ids)
  obtain r net1 where rm: "remove_memory net a = (r, net1)"
    by (cases "remove_memory net a")
  with Cons.prems obtain u1 where r: "r = Inr u1" and rest: "remove_memories ids net1 = (Inr u, net')"
    by (cases r) simp_all
  from remove_memory_shrinks [OF rm [unfolded r]] Cons.IH [OF rest]
  show ?case by simp
qed

lemma memory_scores_length:
  "memory_scores clock i ms = Inr scores \<Longrightarrow> length scores = length ms"
proof (induction ms arbitrary: i scores)
  case Nil
  then show ?case by simp
next
  case (Cons p ms)
  obtain k m where p: "p = (k, m)" by (cases p)
  from Cons.prems p obtain s rest where
    "memory_scores clock (Suc i) ms = Inr rest" "scores = (k, s) # rest"
    by (auto split: sum.splits)
  with Cons.IH show ?case by simp
qed

lemma manage_capacity_bound:
  assumes "manage_capacity clock net = (Inr u, net')" and "0 \<le> capacity net"
  shows "int (length (memories net')) \<le> capacity net' \<and> capacity net' = capacity net"
proof (cases "int (length (memories net)) > capacity net")
  case False
  with assms show ?thesis by (simp add: manage_capacity_def)
next
  case True
  with assms(1) obtain scores where
    sc: "memory_scores clock 0 (memories net) = Inr scores" and
    rm: "remove_memories
           (map fst (take (nat (int (length (memories net)) - capacity net)) (sort_key snd scores)))
           net = (Inr u, net')"
    by (cases "memory_scores clock 0 (memories net)") (simp_all add: manage_capacity_def Let_def)
  have len: "length scores = length (memories net)"
    using sc by (rule memory_scores_length)
  have "length (memories net') + nat (int (length (memories net)) - capacity net)
          \<le> length (memories net)" and c: "capacity net' = capacity net"
    using remove_memories_shrinks [OF rm] len assms(2) True by simp_all
  with assms(2) True show ?thesis by linarith
qed

lemma create_associations_loop_capacity:
  "create_associations_loop memory_id memory others net = (r, net') \<Longrightarrow> capacity net' = capacity net"
proof (induction others arbitrary: net)
  case Nil
  then show ?case by simp
next
  case (Cons p others)
  obtain k m where p: "p = (k, m)" by (cases p)
  show ?case
  proof (cases "k \<noteq> memory_id")
    case False
    with Cons p show ?thesis by simp
  next
    case True
    show ?thesis
    proof (cases "calculate_association_strength memory m")
      case (Inl e)
      with Cons.prems p True show ?thesis by simp
    next
      case (Inr s)
      show ?thesis
      proof (cases "s > 0.3")
        case False
        with Cons p True Inr show ?thesis by simp
      next
        case gt: True
        from Cons.prems p True Inr gt Cons.IH show ?thesis by fastforce
      qed
    qed
  qed
qed

text \<open>
  A store that returns an identifier has run the capacity manager to its end, and then
  the number of stored records is at most the capacity, from every network whose capacity
  is not negative. A store that raises is not covered: see the run below, where the
  capacity manager itself raises.
\<close>

theorem store_memory_capacity:
  assumes "store_memory py_hash clock net memory = (Inr memory_id, net')"
    and "0 \<le> capacity net"
  shows "int (length (memories net')) \<le> capacity net' \<and> capacity net' = capacity net"
proof -
  define mid where "mid = generate_id py_hash net memory"
  define net2 where "net2 =
    update_indices (net\<lparr>memories := AList.update mid memory (memories net)\<rparr>) mid memory"
  have c2: "capacity net2 = capacity net"
    by (simp add: net2_def update_indices_def)
  obtain r net3 where ca: "create_associations net2 mid memory = (r, net3)"
    by (cases "create_associations net2 mid memory")
  have c3: "capacity net3 = capacity net2"
    using ca unfolding create_associations_def by (rule create_associations_loop_capacity)
  obtain r' net4 where mc: "manage_capacity clock net3 = (r', net4)"
    by (cases "manage_capacity clock net3")
  from assms(1) ca mc obtain u where "r' = Inr u" and n: "net' = net4"
    by (cases r; cases r') (simp_all add: store_memory_def Let_def mid_def [symmetric] net2_def [symmetric])
  with mc have "manage_capacity clock net3 = (Inr u, net')" by simp
  from manage_capacity_bound [OF this] c2 c3 assms(2) show ?thesis by simp
qed

section \<open>The run of five stores\<close>

lemmas eval_defs = store_at_noon_def noon_clock_def store_memory_def generate_id_def len_hash_def str_int_def
  str_nat.simps update_indices_def create_associations_def manage_capacity_def
  remove_memory_def append_association_def calculate_association_strength_def context_sim_def
  tag_sim_def temporal_sim_def emotional_sim_def total_seconds_def memory_score_def
  bucket_add_def bucket_discard_def context_key_def emotion_key_def py_round_def Let_def
  fcard_finsert_if fcard_fempty

lemmas record_defs = attic_def desk1_def desk2_def shed_def roof_def

lemma step1:
  "fst (store_at_noon (new_MemoryNetwork 2) attic) = Inr ''mem_0_1''"
  "memories net1 = [(''mem_0_1'', attic)]"
  "capacity net1 = 2"
  "tag_index net1 ''work'' = {}"
  "context_index net1 ''place:desk'' = {}"
  "emotional_index net1 1 = {}"
  "association_strength net1 = Map.empty"
  unfolding net1_def
  by (simp_all add: eval_defs new_MemoryNetwork_def attic_def)

lemma step2:
  "fst (store_at_noon net1 desk1) = Inr ''mem_1_2''"
  "memories net2 = [(''mem_0_1'', attic), (''mem_1_2'', desk1)]"
  "capacity net2 = 2"
  "tag_index net2 ''work'' = {''mem_1_2''}"
  "context_index net2 ''place:desk'' = {''mem_1_2''}"
  "emotional_index net2 1 = {''mem_1_2''}"
  "association_strength net2 = Map.empty"
  unfolding net2_def
  by (simp_all add: eval_defs step1 record_defs)

lemma step3:
  "fst (store_at_noon net2 desk2) = Inr ''mem_2_3''"
  "memories net3 = [(''mem_1_2'', desk1\<lparr>associations := [''mem_2_3'']\<rparr>),
                    (''mem_2_3'', desk2\<lparr>associations := [''mem_1_2'']\<rparr>)]"
  "capacity net3 = 2"
  "''mem_2_3'' \<in> tag_index net3 ''work''"
  "''mem_2_3'' \<in> context_index net3 ''place:desk''"
  "''mem_2_3'' \<in> emotional_index net3 1"
  "association_strength net3 (''mem_1_2'', ''mem_2_3'') = Some 1"
  "association_strength net3 (''mem_2_3'', ''mem_1_2'') = Some 1"
  unfolding net3_def
  by (simp_all add: eval_defs step2 record_defs)

lemma step4:
  "fst (store_at_noon net3 shed) = Inr ''mem_2_3''"
  "memories net4 = [(''mem_1_2'', desk1\<lparr>associations := [''mem_2_3'']\<rparr>), (''mem_2_3'', shed)]"
  "capacity net4 = 2"
  "''mem_2_3'' \<in> tag_index net4 ''work''"
  "''mem_2_3'' \<in> context_index net4 ''place:desk''"
  "''mem_2_3'' \<in> emotional_index net4 1"
  "association_strength net4 (''mem_1_2'', ''mem_2_3'') = Some 1"
  "association_strength net4 (''mem_2_3'', ''mem_1_2'') = Some 1"
  unfolding net4_def
  by (simp_all add: eval_defs step3 record_defs)

lemma step5:
  "fst (store_at_noon net4 roof) = Inr ''mem_2_4''"
  "memories net5 = [(''mem_1_2'', desk1\<lparr>associations := [''mem_2_3'']\<rparr>), (''mem_2_4'', roof)]"
  "capacity net5 = 2"
  "''mem_2_3'' \<in> tag_index net5 ''work''"
  "''mem_2_3'' \<in> context_index net5 ''place:desk''"
  "''mem_2_3'' \<in> emotional_index net5 1"
  "association_strength net5 (''mem_1_2'', ''mem_2_3'') = Some 1"
  "association_strength net5 (''mem_2_3'', ''mem_1_2'') = Some 1"
  unfolding net5_def
  by (simp_all add: eval_defs step4 record_defs)

theorem store_memory_capacity_witness:
  "store_at_noon net2 desk2 = (Inr ''mem_2_3'', net3)
   \<and> 0 \<le> capacity net2 \<and> length (memories net2) = 2
   \<and> int (length (memories net3)) \<le> capacity net3"
proof -
  have run: "store_memory len_hash noon_clock net2 desk2 = (Inr ''mem_2_3'', net3)"
    using step3(1) by (simp add: net3_def store_at_noon_def prod_eq_iff)
  have cap: "0 \<le> capacity net2" by (simp add: step2)
  from store_memory_capacity [OF run cap] run cap show ?thesis
    by (simp add: step2 store_at_noon_def)
qed

section \<open>Identifiers given twice\<close>

text \<open>
  The identifier is made of the number of stored records and the hash of the content. At
  capacity that number is the same at every store, so two records with one content are
  given one identifier.
\<close>

lemma generate_id_repeats:
  "length (memories net) = length (memories net') \<Longrightarrow> content memory = content memory' \<Longrightarrow>
     generate_id py_hash net memory = generate_id py_hash net' memory'"
  by (simp add: generate_id_def)

text \<open>
  C4 (the code at the failing input). After the four stores \<open>attic\<close>, \<open>desk1\<close>,
  \<open>desk2\<close>, \<open>shed\<close>, each of which returns, the fourth has been given the identifier
  of \<open>desk2\<close> and has taken its place: \<open>desk1\<close> still lists that identifier, and the
  record now stored under it does not list \<open>desk1\<close>.
\<close>

theorem reused_id_breaks_symmetry:
  "fst (store_at_noon (new_MemoryNetwork 2) attic) = Inr ''mem_0_1''
   \<and> fst (store_at_noon net1 desk1) = Inr ''mem_1_2''
   \<and> fst (store_at_noon net2 desk2) = Inr ''mem_2_3''
   \<and> fst (store_at_noon net3 shed) = Inr ''mem_2_3''
   \<and> stored net4 ''mem_1_2'' \<and> stored net4 ''mem_2_3''
   \<and> ''mem_2_3'' \<in> set (associations_of net4 ''mem_1_2'')
   \<and> ''mem_1_2'' \<notin> set (associations_of net4 ''mem_2_3'')"
proof -
  have "associations shed = []" by (simp add: shed_def)
  then show ?thesis
    by (simp add: step1 step2 step3 step4 stored_def associations_of_def)
qed

text \<open>
  C6 (the code at the failing input). The fifth store, of \<open>roof\<close>, evicts the record
  stored under \<^verbatim>\<open>mem_2_3\<close>. After it the identifier is still in the tag bucket, the
  context bucket and the valence bucket of \<open>desk2\<close>, the surviving \<open>desk1\<close> still lists
  it, and both strengths keyed by it remain.
\<close>

theorem eviction_leaves_reused_id:
  "fst (store_at_noon net4 roof) = Inr ''mem_2_4''
   \<and> stored net4 ''mem_2_3'' \<and> \<not> stored net5 ''mem_2_3''
   \<and> ''mem_2_3'' \<in> tag_index net5 ''work''
   \<and> ''mem_2_3'' \<in> context_index net5 ''place:desk''
   \<and> ''mem_2_3'' \<in> emotional_index net5 1
   \<and> stored net5 ''mem_1_2'' \<and> ''mem_2_3'' \<in> set (associations_of net5 ''mem_1_2'')
   \<and> association_strength net5 (''mem_2_3'', ''mem_1_2'') \<noteq> None
   \<and> association_strength net5 (''mem_1_2'', ''mem_2_3'') \<noteq> None"
  by (simp add: step4 step5 stored_def associations_of_def)

text \<open>
  C10 (the code at the failing input). After the five stores the stored record
  \<^verbatim>\<open>mem_1_2\<close> lists \<^verbatim>\<open>mem_2_3\<close>, which is not in the store, and the strength map has a
  pair with \<^verbatim>\<open>mem_2_3\<close> in it.
\<close>

theorem dangling_association_after_reused_id:
  "map fst (memories net5) = [''mem_1_2'', ''mem_2_4'']
   \<and> ''mem_2_3'' \<in> set (associations_of net5 ''mem_1_2'')
   \<and> \<not> stored net5 ''mem_2_3''
   \<and> association_strength net5 (''mem_1_2'', ''mem_2_3'') \<noteq> None"
  by (simp add: step5 stored_def associations_of_def)

section \<open>Capacity after an identifier is given twice\<close>

lemma dim_step2:
  "fst (store_at_noon net1 desk_dim) = Inr ''mem_1_2''"
  "memories dim2 = [(''mem_0_1'', attic), (''mem_1_2'', desk_dim)]"
  "capacity dim2 = 2"
  unfolding dim2_def
  by (simp_all add: eval_defs step1 record_defs desk_dim_def)

lemma dim_step3:
  "fst (store_at_noon dim2 desk2) = Inr ''mem_2_3''"
  "memories dim3 = [(''mem_1_2'', desk_dim\<lparr>associations := [''mem_2_3'']\<rparr>),
                    (''mem_2_3'', desk2\<lparr>associations := [''mem_1_2'']\<rparr>)]"
  "capacity dim3 = 2"
  unfolding dim3_def
  by (simp_all add: eval_defs dim_step2 record_defs desk_dim_def)

lemma dim_step4:
  "fst (store_at_noon dim3 shed_dear) = Inr ''mem_2_3''"
  "memories dim4 = [(''mem_1_2'', desk_dim\<lparr>associations := [''mem_2_3'']\<rparr>),
                    (''mem_2_3'', shed_dear)]"
  "capacity dim4 = 2"
  unfolding dim4_def
  by (simp_all add: eval_defs dim_step3 record_defs desk_dim_def shed_dear_def)

lemma dim_step5:
  "fst (store_at_noon dim4 roof) = Inl (ValueError ''list.remove(x): x not in list'')"
  "map fst (memories dim5) = [''mem_1_2'', ''mem_2_3'', ''mem_2_4'']"
  "capacity dim5 = 2"
  unfolding dim5_def
  by (simp_all add: eval_defs dim_step4 record_defs desk_dim_def shed_dear_def)

text \<open>
  C5 (the code at the failing input). Five stores on a network of capacity 2: \<open>attic\<close>,
  \<open>desk_dim\<close>, \<open>desk2\<close>, \<open>shed_dear\<close>, \<open>roof\<close>. The first four return, the fourth
  under the identifier of \<open>desk2\<close>. In the fifth the capacity manager runs and picks
  \<open>desk_dim\<close>, which lists that identifier; the record now stored under it lists nobody,
  \<^verbatim>\<open>list.remove\<close> raises ValueError inside \<^verbatim>\<open>_remove_memory\<close>, and the call ends with
  three records in a network of capacity 2.
\<close>

theorem capacity_exceeded_after_reused_id:
  "fst (store_at_noon (new_MemoryNetwork 2) attic) = Inr ''mem_0_1''
   \<and> fst (store_at_noon net1 desk_dim) = Inr ''mem_1_2''
   \<and> fst (store_at_noon dim2 desk2) = Inr ''mem_2_3''
   \<and> fst (store_at_noon dim3 shed_dear) = Inr ''mem_2_3''
   \<and> fst (store_at_noon dim4 roof) = Inl (ValueError ''list.remove(x): x not in list'')
   \<and> map fst (memories dim5) = [''mem_1_2'', ''mem_2_3'', ''mem_2_4'']
   \<and> capacity dim5 = 2
   \<and> \<not> int (length (memories dim5)) \<le> capacity dim5"
proof -
  have "length (memories dim5) = length (map fst (memories dim5))" by simp
  also have "\<dots> = 3" by (simp only: dim_step5(2)) simp
  finally have "length (memories dim5) = 3" .
  then show ?thesis
    by (simp add: step1 dim_step2 dim_step3 dim_step4 dim_step5)
qed

section \<open>Rejected records\<close>

text \<open>
  C7. A record with empty content, with an importance outside [0,1] or with a valence
  outside [-1,1] is refused with a ValueError when it is built, whatever its other fields,
  so building and storing it fails with that error and leaves the network as it was.
\<close>

theorem invalid_record_rejected:
  assumes "c = [] \<or> \<not> (0 \<le> imp \<and> imp \<le> 1) \<or> \<not> (- 1 \<le> val \<and> val \<le> 1)"
  shows "(\<exists>msg. new_MemoryTrace c ts imp val ctx tgs rc la assoc = Inl (ValueError msg))
         \<and> build_and_store py_hash clock net c ts imp val ctx tgs
             = (Inl (ValueError
                       (if c = [] then ''Content must be a non-empty string''
                        else if \<not> (0 \<le> imp \<and> imp \<le> 1)
                          then ''Importance must be a float between 0 and 1''
                        else ''Emotional valence must be a float between -1 and 1'')), net)"
  using assms by (auto simp: new_MemoryTrace_def build_and_store_def)

theorem invalid_record_rejected_witness:
  "\<not> (0 \<le> (3 / 2 :: real) \<and> (3 / 2 :: real) \<le> 1)
   \<and> build_and_store len_hash noon_clock net2 ''Test'' noon (3 / 2) 0 [] {||}
       = (Inl (ValueError ''Importance must be a float between 0 and 1''), net2)"
proof -
  have h: "''Test'' = [] \<or> \<not> (0 \<le> (3 / 2 :: real) \<and> (3 / 2 :: real) \<le> 1)
             \<or> \<not> (- 1 \<le> (0 :: real) \<and> (0 :: real) \<le> 1)" by simp
  from invalid_record_rejected [OF h, of noon "[]" "{||}" 0 None None len_hash noon_clock net2]
  show ?thesis by (simp add: new_MemoryTrace_def build_and_store_def)
qed

section \<open>Time ranges\<close>

lemma overnight_valid: "datetime_le late early"
  by (simp add: datetime_le_def late_def early_def)

text \<open>
  C3 (the code at the failing input). For the valid range from 23:00 on 1 January 2024 to
  01:00 on 2 January the query does not complete, on any network: after the bucket of
  hour 23 the loop asks for hour 24 and \<^verbatim>\<open>replace\<close> raises ValueError.
\<close>

theorem retrieve_overnight_raises:
  "datetime_le late early
   \<and> retrieve_memories set_iter clock net overnight_query
       = (Inl (ValueError ''hour must be in 0..23''), net)"
  by (simp add: retrieve_memories_def candidate_memories_def overnight_query_def any_query_def
      temporal_matches.simps replace_hour_def datetime_le_def late_def early_def)

text \<open>
  The same holds for every range that reaches hour 23 of the day it starts on, whether it
  crosses into the next day or not.
\<close>

lemma temporal_matches_reaches_23:
  "hour s \<le> 23 \<Longrightarrow> datetime_le (s\<lparr>hour := 23\<rparr>) e \<Longrightarrow>
     temporal_matches index s e acc = Inl (ValueError ''hour must be in 0..23'')"
proof (induction "23 - hour s" arbitrary: s acc)
  case 0
  then have h: "hour s = 23" by simp
  then have "s\<lparr>hour := 23\<rparr> = s" by simp
  with 0 have "datetime_le s e" by simp
  then show ?case
    by (subst temporal_matches.simps) (simp add: replace_hour_def h)
next
  case (Suc n)
  then have h: "hour s < 23" by simp
  have le: "datetime_le s e"
    using Suc.prems(2) h by (auto simp: datetime_le_def)
  let ?next = "s\<lparr>hour := hour s + 1\<rparr>"
  have "temporal_matches index ?next e (acc \<union> index (hour_key s))
          = Inl (ValueError ''hour must be in 0..23'')"
    using Suc.hyps(2) Suc.prems h by (intro Suc.hyps(1)) simp_all
  then show ?case
    using le h by (subst temporal_matches.simps) (simp add: replace_hour_def)
qed

section \<open>Order of the results\<close>

lemma update_retrieval_ranks:
  "map rank_of (fst (update_retrieval clock i xs net))
     = map (\<lambda>x. (fst x, importance (snd x), retrieval_count (snd x) + 1)) xs"
proof (induction xs arbitrary: i net)
  case Nil
  show ?case by simp
next
  case (Cons p xs)
  obtain k m where p: "p = (k, m)" by (cases p)
  let ?net = "net\<lparr>memories := AList.map_entry k (touch (clock i)) (memories net)\<rparr>"
  obtain r n where u: "update_retrieval clock (Suc i) xs ?net = (r, n)"
    by (cases "update_retrieval clock (Suc i) xs ?net")
  from Cons.IH [of "Suc i" ?net] u
  have "map rank_of r = map (\<lambda>x. (fst x, importance (snd x), retrieval_count (snd x) + 1)) xs"
    by simp
  then have "map (\<lambda>a. (fst a, importance (snd a), retrieval_count (snd a))) r
               = map (\<lambda>x. (fst x, importance (snd x), retrieval_count (snd x) + 1)) xs"
    by (simp add: rank_of_def [abs_def])
  with p u show ?case by (simp add: rank_of_def [abs_def] touch_def)
qed

lemma lookup_all_found:
  "lookup_all ms ids = Inr found \<Longrightarrow>
     map fst found = ids \<and> (\<forall>x \<in> set found. map_of ms (fst x) = Some (snd x))"
proof (induction ids arbitrary: found)
  case Nil
  then show ?case by simp
next
  case (Cons a ids)
  from Cons.prems obtain m rest where
    m: "map_of ms a = Some m" and r: "lookup_all ms ids = Inr rest" and f: "found = (a, m) # rest"
    by (auto split: option.splits sum.splits)
  from Cons.IH [OF r] m f show ?case by simp
qed

lemma found_filter:
  assumes "map fst found = ids" and "\<forall>x \<in> set found. map_of ms (fst x) = Some (snd x)"
  shows "map fst (filter (\<lambda>x. P (snd x)) found)
           = filter (\<lambda>k. \<exists>m. map_of ms k = Some m \<and> P m) ids"
  using assms
proof (induction found arbitrary: ids)
  case Nil
  then show ?case by simp
next
  case (Cons x found)
  then obtain ids' where ids: "ids = fst x # ids'" and t: "map fst found = ids'" by auto
  from Cons.prems(2) have hd: "map_of ms (fst x) = Some (snd x)"
    and tl: "\<forall>y \<in> set found. map_of ms (fst y) = Some (snd y)" by simp_all
  from Cons.IH [OF t tl] hd ids show ?case by simp
qed

lemma sort_key_of_eq:
  "(sort_key_of x = (- imp, - rc)) = (importance (snd x) = imp \<and> retrieval_count (snd x) = rc)"
  by (auto simp: sort_key_of_def)

lemma sort_key_of_le:
  "sort_key_of x \<le> sort_key_of y \<Longrightarrow>
     importance (snd y) < importance (snd x)
     \<or> (importance (snd x) = importance (snd y) \<and> retrieval_count (snd y) \<le> retrieval_count (snd x))"
  by (auto simp: sort_key_of_def less_eq_prod_def)

lemmas query_defs = retrieve_at_noon_def noon_clock_def retrieve_memories_def candidate_memories_def any_query_def iter_in_order_def
  sort_key_of_def touch_def

lemma seen:
  "fst (retrieve_at_noon [''mem_1_2'', ''mem_2_3''] net3 any_query)
     = Inr seen_results"
  "memories net3_seen = seen_results"
  unfolding net3_seen_def seen_results_def
  by (simp_all add: query_defs step3 desk1_def desk2_def)

lemma seen_reversed:
  "fst (retrieve_at_noon [''mem_2_3'', ''mem_1_2''] net3 any_query)
     = Inr (rev seen_results)"
  unfolding seen_results_def
  by (simp add: query_defs step3 desk1_def desk2_def)

text \<open>
  C8 (counterexample). The same network and the same query, with the two records tied on
  both keys: the result follows the order in which the candidate set is walked, so two
  runs give the two orders, and the second is not the order of the identifiers.
\<close>

theorem tie_order_follows_set_order:
  "fst (retrieve_at_noon [''mem_1_2'', ''mem_2_3''] net3 any_query)
     = Inr seen_results
   \<and> fst (retrieve_at_noon [''mem_2_3'', ''mem_1_2''] net3 any_query)
     = Inr (rev seen_results)
   \<and> map fst seen_results = [''mem_1_2'', ''mem_2_3'']
   \<and> map fst (rev seen_results) = [''mem_2_3'', ''mem_1_2'']
   \<and> candidate_memories net3 any_query = Inr {''mem_1_2'', ''mem_2_3''}
   \<and> set (iter_in_order [''mem_1_2'', ''mem_2_3''] {''mem_1_2'', ''mem_2_3''})
       = {''mem_1_2'', ''mem_2_3''}
   \<and> set (iter_in_order [''mem_2_3'', ''mem_1_2''] {''mem_1_2'', ''mem_2_3''})
       = {''mem_1_2'', ''mem_2_3''}"
proof -
  have "map fst seen_results = [''mem_1_2'', ''mem_2_3'']"
    by (simp add: seen_results_def)
  moreover have "candidate_memories net3 any_query = Inr {''mem_1_2'', ''mem_2_3''}"
    by (simp add: candidate_memories_def any_query_def step3)
  moreover have "set (iter_in_order [''mem_1_2'', ''mem_2_3''] {''mem_1_2'', ''mem_2_3''})
       = {''mem_1_2'', ''mem_2_3''}"
    "set (iter_in_order [''mem_2_3'', ''mem_1_2''] {''mem_1_2'', ''mem_2_3''})
       = {''mem_1_2'', ''mem_2_3''}"
    by (auto simp: iter_in_order_def)
  ultimately show ?thesis
    using seen(1) seen_reversed by (simp add: rev_map [symmetric])
qed

text \<open>
  C8 (amended). The returned sequence is sorted by importance descending, then by
  retrieval count descending; the records that tie on both keep the order in which the
  set of candidates was walked (the sort is stable and has no third key), so the order of
  the ties is that of the set, not one fixed by the identifiers.
\<close>

theorem retrieve_memories_order:
  assumes "retrieve_memories set_iter clock net query = (Inr results, net')"
  shows "sorted_wrt (\<lambda>a b. importance (snd b) < importance (snd a)
                       \<or> (importance (snd a) = importance (snd b)
                           \<and> retrieval_count (snd b) \<le> retrieval_count (snd a))) results
         \<and> (\<exists>candidates. candidate_memories net query = Inr candidates
               \<and> (\<forall>imp rc.
                     map fst (filter (\<lambda>x. importance (snd x) = imp
                                           \<and> retrieval_count (snd x) = rc + 1) results)
                       = filter (\<lambda>k. \<exists>m. map_of (memories net) k = Some m
                                            \<and> importance m = imp \<and> retrieval_count m = rc)
                           (set_iter candidates)))"
proof -
  from assms obtain candidates where c: "candidate_memories net query = Inr candidates"
    by (cases "candidate_memories net query") (simp_all add: retrieve_memories_def)
  with assms obtain found where l: "lookup_all (memories net) (set_iter candidates) = Inr found"
    by (cases "lookup_all (memories net) (set_iter candidates)")
       (simp_all add: retrieve_memories_def)
  let ?s = "sort_key sort_key_of found"
  let ?bump = "\<lambda>x :: string \<times> MemoryTrace. (fst x, importance (snd x), retrieval_count (snd x) + 1)"
  from assms c l have r: "results = fst (update_retrieval clock 0 ?s net)"
    by (simp add: retrieve_memories_def split: prod.splits)
  have ranks: "map rank_of results = map ?bump ?s"
    unfolding r by (rule update_retrieval_ranks)
  let ?rel = "\<lambda>a b :: string \<times> real \<times> int.
                fst (snd b) < fst (snd a) \<or> (fst (snd a) = fst (snd b) \<and> snd (snd b) \<le> snd (snd a))"
  have "sorted (map sort_key_of ?s)" by (rule sorted_sort_key)
  then have "sorted_wrt (\<lambda>x y. sort_key_of x \<le> sort_key_of y) ?s"
    by (simp add: sorted_map)
  then have "sorted_wrt (\<lambda>x y. ?rel (?bump x) (?bump y)) ?s"
    by (rule sorted_wrt_mono_rel [rotated]) (use sort_key_of_le in auto)
  then have "sorted_wrt ?rel (map ?bump ?s)"
    by (simp add: sorted_wrt_map)
  then have "sorted_wrt ?rel (map rank_of results)"
    by (simp only: ranks)
  then have sorted: "sorted_wrt (\<lambda>a b. importance (snd b) < importance (snd a)
                       \<or> (importance (snd a) = importance (snd b)
                           \<and> retrieval_count (snd b) \<le> retrieval_count (snd a))) results"
    by (simp add: sorted_wrt_map rank_of_def)
  have stable: "map fst (filter (\<lambda>x. importance (snd x) = imp
                                       \<and> retrieval_count (snd x) = rc + 1) results)
                  = filter (\<lambda>k. \<exists>m. map_of (memories net) k = Some m
                                       \<and> importance m = imp \<and> retrieval_count m = rc)
                      (set_iter candidates)" for imp rc
  proof -
    let ?Q = "\<lambda>t :: string \<times> real \<times> int. fst (snd t) = imp \<and> snd (snd t) = rc + 1"
    have "map fst (filter (\<lambda>x. importance (snd x) = imp
                                 \<and> retrieval_count (snd x) = rc + 1) results)
            = map fst (filter ?Q (map rank_of results))"
      by (simp add: filter_map comp_def rank_of_def)
    also have "\<dots> = map fst (filter ?Q (map ?bump ?s))"
      by (simp only: ranks)
    also have "\<dots> = map fst (filter (\<lambda>x. sort_key_of x = (- imp, - rc)) ?s)"
      by (simp add: filter_map comp_def sort_key_of_eq)
    also have "\<dots> = map fst (filter (\<lambda>x. sort_key_of x = (- imp, - rc)) found)"
      by (simp only: sort_key_stable)
    also have "\<dots> = map fst (filter (\<lambda>x. importance (snd x) = imp
                                          \<and> retrieval_count (snd x) = rc) found)"
      by (simp add: sort_key_of_eq)
    also have "\<dots> = filter (\<lambda>k. \<exists>m. map_of (memories net) k = Some m
                                       \<and> importance m = imp \<and> retrieval_count m = rc)
                      (set_iter candidates)"
      using lookup_all_found [OF l]
      by (intro found_filter [where P = "\<lambda>m. importance m = imp \<and> retrieval_count m = rc"])
         simp_all
    finally show ?thesis .
  qed
  from sorted stable c show ?thesis by blast
qed

theorem retrieve_memories_order_witness:
  "retrieve_at_noon [''mem_1_2'', ''mem_2_3''] net3 any_query
     = (Inr seen_results, net3_seen)
   \<and> sorted_wrt (\<lambda>a b. importance (snd b) < importance (snd a)
                       \<or> (importance (snd a) = importance (snd b)
                           \<and> retrieval_count (snd b) \<le> retrieval_count (snd a))) seen_results"
proof -
  have run: "retrieve_at_noon [''mem_1_2'', ''mem_2_3''] net3 any_query
               = (Inr seen_results, net3_seen)"
    using seen(1) by (simp add: net3_seen_def prod_eq_iff)
  from retrieve_memories_order [OF run [unfolded retrieve_at_noon_def]]
  have s: "sorted_wrt (\<lambda>a b. importance (snd b) < importance (snd a)
                       \<or> (importance (snd a) = importance (snd b)
                           \<and> retrieval_count (snd b) \<le> retrieval_count (snd a))) seen_results"
    by (rule conjunct1)
  show ?thesis by (rule conjI [OF run s])
qed

section \<open>Asking twice\<close>

lemma map_entry_touch_view:
  "map filter_view (AList.map_entry k (touch t) ms) = map filter_view ms"
  by (induction ms) (auto simp: filter_view_def touch_def)

lemma update_retrieval_same_filters:
  "same_filters net (snd (update_retrieval clock i xs net))"
proof (induction xs arbitrary: i net)
  case Nil
  show ?case by (simp add: same_filters_def)
next
  case (Cons p xs)
  obtain k m where p: "p = (k, m)" by (cases p)
  let ?net = "net\<lparr>memories := AList.map_entry k (touch (clock i)) (memories net)\<rparr>"
  have a: "same_filters net ?net"
    by (simp add: same_filters_def map_entry_touch_view)
  have b: "same_filters ?net (snd (update_retrieval clock (Suc i) xs ?net))"
    by (rule Cons.IH)
  obtain r n where u: "update_retrieval clock (Suc i) xs ?net = (r, n)"
    by (cases "update_retrieval clock (Suc i) xs ?net")
  from a b u have "same_filters net n"
    by (simp add: same_filters_def)
  with p u show ?case by simp
qed

lemma view_keys: "map fst ms = map fst (map filter_view ms)"
  by (simp add: filter_view_def comp_def)

lemma view_filter:
  "map fst (filter (\<lambda>(memory_id, memory). P (content memory) (importance memory)) ms)
     = map fst (filter (\<lambda>(k, c, i). P c i) (map filter_view ms))"
  by (induction ms) (auto simp: filter_view_def)

lemma same_filters_candidates:
  assumes "same_filters net net'"
  shows "candidate_memories net' query = candidate_memories net query"
proof -
  from assms have v: "map filter_view (memories net') = map filter_view (memories net)"
    and i: "context_index net' = context_index net" "temporal_index net' = temporal_index net"
      "emotional_index net' = emotional_index net" "tag_index net' = tag_index net"
    by (simp_all add: same_filters_def)
  have keys: "map fst (memories net') = map fst (memories net)"
    using v by (metis view_keys)
  have cm: "content_matches net' c = content_matches net c" for c
    unfolding content_matches_def
    using view_filter [of "\<lambda>x y. is_substring (lower c) (lower x)"] v by metis
  have im: "importance_matches net' t = importance_matches net t" for t
    unfolding importance_matches_def
    using view_filter [of "\<lambda>x y. t \<le> y"] v by metis
  have xm: "context_matches net' ctx = context_matches net ctx" for ctx
    by (simp add: context_matches_def i)
  have tm: "tag_matches net' tgs = tag_matches net tgs" for tgs
    by (simp add: tag_matches_def i)
  have em: "emotional_matches net' rng = emotional_matches net rng" for rng
    by (simp add: emotional_matches_def i)
  show ?thesis
    unfolding candidate_memories_def by (simp only: keys cm im xm tm em i)
qed

lemma candidate_memories_stored:
  assumes "candidate_memories net query = Inr S"
  shows "S \<subseteq> set (map fst (memories net))"
proof -
  define c0 where "c0 = set (map fst (memories net))"
  define c1 where "c1 = (case q_content query of
                  None \<Rightarrow> c0
                | Some c \<Rightarrow> if c \<noteq> [] then c0 \<inter> content_matches net c else c0)"
  define c2 where "c2 = (case q_context query of
                  None \<Rightarrow> c1
                | Some ctx \<Rightarrow> if ctx \<noteq> [] then c1 \<inter> context_matches net ctx else c1)"
  define t where "t = (case q_time_range query of
                 None \<Rightarrow> Inr c2
               | Some (start_time, end_time) \<Rightarrow>
                   (case temporal_matches (temporal_index net) start_time end_time {} of
                      Inl e \<Rightarrow> Inl e
                    | Inr t \<Rightarrow> Inr (c2 \<inter> t)))"
  have s1: "c1 \<subseteq> c0" by (auto simp: c1_def split: option.splits if_splits)
  have s2: "c2 \<subseteq> c1" by (auto simp: c2_def split: option.splits if_splits)
  from assms obtain c3 where t3: "t = Inr c3"
    unfolding candidate_memories_def Let_def c0_def [symmetric] c1_def [symmetric]
      c2_def [symmetric] t_def [symmetric]
    by (cases t) simp_all
  have s3: "c3 \<subseteq> c2"
    using t3 by (auto simp: t_def split: option.splits prod.splits sum.splits)
  from assms t3 have s4: "S \<subseteq> c3"
    unfolding candidate_memories_def Let_def c0_def [symmetric] c1_def [symmetric]
      c2_def [symmetric] t_def [symmetric]
    by (auto split: option.splits if_splits)
  from s1 s2 s3 s4 show ?thesis unfolding c0_def by blast
qed

lemma lookup_all_stored:
  "set ids \<subseteq> set (map fst ms) \<Longrightarrow> \<exists>found. lookup_all ms ids = Inr found"
proof (induction ids)
  case Nil
  show ?case by simp
next
  case (Cons a ids)
  then obtain found where f: "lookup_all ms ids = Inr found" by auto
  from Cons.prems have "a \<in> fst ` set ms" by simp
  then obtain m where "map_of ms a = Some m"
    by (metis map_of_eq_None_iff not_Some_eq)
  with f show ?case by simp
qed

lemma retrieve_memories_run:
  assumes en: "\<forall>S. S \<subseteq> set (map fst (memories net)) \<longrightarrow> set (set_iter S) = S"
    and run: "retrieve_memories set_iter clock net query = (r, net')"
  shows "same_filters net net'
         \<and> (case candidate_memories net query of
              Inl e \<Rightarrow> r = Inl e
            | Inr S \<Rightarrow> \<exists>xs. r = Inr xs \<and> set (map fst xs) = S)"
proof (cases "candidate_memories net query")
  case (Inl e)
  with run show ?thesis by (simp add: retrieve_memories_def same_filters_def)
next
  case (Inr S)
  have sub: "S \<subseteq> set (map fst (memories net))"
    using Inr by (rule candidate_memories_stored)
  with en have it: "set (set_iter S) = S" by blast
  with sub obtain found where l: "lookup_all (memories net) (set_iter S) = Inr found"
    using lookup_all_stored [of "set_iter S" "memories net"] by auto
  let ?s = "sort_key sort_key_of found"
  from run Inr l have r: "r = Inr (fst (update_retrieval clock 0 ?s net))"
    and n: "net' = snd (update_retrieval clock 0 ?s net)"
    by (simp_all add: retrieve_memories_def split: prod.splits)
  have "map fst (map rank_of (fst (update_retrieval clock 0 ?s net))) = map fst ?s"
    by (simp add: update_retrieval_ranks comp_def)
  then have "map fst (fst (update_retrieval clock 0 ?s net)) = map fst ?s"
    by (simp add: rank_of_def comp_def)
  then have "set (map fst (fst (update_retrieval clock 0 ?s net))) = set (map fst found)"
    by simp
  also have "\<dots> = S" using lookup_all_found [OF l] it by simp
  finally have ids: "set (map fst (fst (update_retrieval clock 0 ?s net))) = S" .
  have "same_filters net net'" unfolding n by (rule update_retrieval_same_filters)
  with r ids Inr show ?thesis by simp
qed

text \<open>
  C9. A query that returns, asked again at once, returns again, and with the same set of
  identifiers, although the first run has raised the retrieval counts and set
  \<^verbatim>\<open>last_accessed\<close>; the two runs may walk the candidate set in different orders, each
  order listing every set of stored identifiers it is given.
\<close>

theorem retrieve_twice_same_ids:
  assumes "\<forall>S. S \<subseteq> set (map fst (memories net)) \<longrightarrow> set (iter1 S) = S"
    and "\<forall>S. S \<subseteq> set (map fst (memories net)) \<longrightarrow> set (iter2 S) = S"
    and "retrieve_memories iter1 clock1 net query = (Inr xs, seen_net)"
    and "retrieve_memories iter2 clock2 seen_net query = (r2, last_net)"
  shows "\<exists>ys. r2 = Inr ys \<and> set (map fst ys) = set (map fst xs)"
proof -
  from retrieve_memories_run [OF assms(1) assms(3)]
  have sf: "same_filters net seen_net"
    and a: "case candidate_memories net query of
              Inl e \<Rightarrow> (Inr xs :: error + (string \<times> MemoryTrace) list) = Inl e
            | Inr S \<Rightarrow> \<exists>zs. (Inr xs :: error + (string \<times> MemoryTrace) list) = Inr zs
                               \<and> set (map fst zs) = S" by simp_all
  from sf have keys: "map fst (memories seen_net) = map fst (memories net)"
    unfolding same_filters_def by (metis view_keys)
  from sf have c: "candidate_memories seen_net query = candidate_memories net query"
    by (rule same_filters_candidates)
  from assms(2) keys
  have "\<forall>S. S \<subseteq> set (map fst (memories seen_net)) \<longrightarrow> set (iter2 S) = S" by simp
  from retrieve_memories_run [OF this assms(4)] c
  have b: "case candidate_memories net query of
              Inl e \<Rightarrow> r2 = Inl e
            | Inr S \<Rightarrow> \<exists>ys. r2 = Inr ys \<and> set (map fst ys) = S" by simp
  from a b show ?thesis
    by (cases "candidate_memories net query") auto
qed

theorem retrieve_twice_same_ids_witness:
  "retrieve_at_noon [''mem_1_2'', ''mem_2_3''] net3 any_query
     = (Inr seen_results, net3_seen)
   \<and> (\<exists>ys. fst (retrieve_at_noon [''mem_2_3'', ''mem_1_2''] net3_seen any_query) = Inr ys
            \<and> set (map fst ys) = {''mem_1_2'', ''mem_2_3''})"
proof -
  have h1: "\<forall>S. S \<subseteq> set (map fst (memories net3))
              \<longrightarrow> set (iter_in_order [''mem_1_2'', ''mem_2_3''] S) = S"
    by (auto simp: step3 iter_in_order_def)
  have h2: "\<forall>S. S \<subseteq> set (map fst (memories net3))
              \<longrightarrow> set (iter_in_order [''mem_2_3'', ''mem_1_2''] S) = S"
    by (auto simp: step3 iter_in_order_def)
  have run1: "retrieve_at_noon [''mem_1_2'', ''mem_2_3''] net3 any_query
               = (Inr seen_results, net3_seen)"
    using seen(1) by (simp add: net3_seen_def prod_eq_iff)
  have run2: "retrieve_at_noon [''mem_2_3'', ''mem_1_2''] net3_seen any_query
               = (fst (retrieve_at_noon [''mem_2_3'', ''mem_1_2''] net3_seen any_query),
                  snd (retrieve_at_noon [''mem_2_3'', ''mem_1_2''] net3_seen any_query))"
    by simp
  have ids: "set (map fst seen_results) = {''mem_1_2'', ''mem_2_3''}"
    by (simp add: seen_results_def)
  from retrieve_twice_same_ids
         [OF h1 h2 run1 [unfolded retrieve_at_noon_def] run2 [unfolded retrieve_at_noon_def]]
       run1 ids
  show ?thesis by (simp add: retrieve_at_noon_def)
qed

end
